theory Spec2Isabelle
  imports Complex_Main
begin

section \<open>Values decoded from inbound frames\<close>

text \<open>
  Both message handlers start with \<^verbatim>\<open>JSON.parse(event.data)\<close>. The parser belongs to
  the JavaScript runtime, so a frame is modelled by what the parser makes of it: it
  throws a SyntaxError (\<open>Malformed\<close>) or it returns a value (\<open>Decoded\<close>).
  A JSON number is a finite double, which is a rational; only its being zero or not and
  the order of two numbers are ever used. The pairs of \<open>JObj\<close> are the own properties
  of the parsed object in the order \<^verbatim>\<open>Object.entries\<close> lists them.
\<close>

datatype json =
    JNull
  | JBool bool
  | JNum rat
  | JStr string
  | JArr "json list"
  | JObj "(string \<times> json) list"

datatype payload = Malformed | Decoded json

datatype exn = SyntaxError | TypeError | InvalidStateError

text \<open>JavaScript truthiness of a decoded value; \<^verbatim>\<open>undefined\<close> is \<open>None\<close>.\<close>

fun truthy :: "json \<Rightarrow> bool" where
  "truthy JNull = False"
| "truthy (JBool b) = b"
| "truthy (JNum n) = (n \<noteq> 0)"
| "truthy (JStr s) = (s \<noteq> [])"
| "truthy (JArr xs) = True"
| "truthy (JObj kvs) = True"

text \<open>
  The property read \<^verbatim>\<open>data.k\<close>, for the property names the handlers use (none of
  them is defined on strings, arrays, numbers or booleans): reading a property of
  \<^verbatim>\<open>null\<close> throws a TypeError, a missing property is \<^verbatim>\<open>undefined\<close>.
\<close>

fun property :: "json \<Rightarrow> string \<Rightarrow> exn + json option" where
  "property JNull k = Inl TypeError"
| "property (JObj kvs) k = Inr (map_of kvs k)"
| "property (JBool b) k = Inr None"
| "property (JNum n) k = Inr None"
| "property (JStr s) k = Inr None"
| "property (JArr xs) k = Inr None"

text \<open>
  One guarded setter call, \<^verbatim>\<open>if (data.k) setK(data.k)\<close>, inside a block of
  statements: the first component is the exception thrown so far, which skips the rest
  of the block; what earlier statements stored stays stored.
\<close>

fun guarded_set :: "json \<Rightarrow> string \<Rightarrow> (json \<Rightarrow> 's \<Rightarrow> 's) \<Rightarrow> exn option \<times> 's \<Rightarrow> exn option \<times> 's" where
  "guarded_set data k setter (Some e, s) = (Some e, s)"
| "guarded_set data k setter (None, s) =
     (case property data k of
        Inl e \<Rightarrow> (Some e, s)
      | Inr None \<Rightarrow> (None, s)
      | Inr (Some v) \<Rightarrow> (None, if truthy v then setter v s else s))"

section \<open>App.tsx: the message handler of the application shell\<close>

datatype effect =
    ConsoleLog string
  | ConsoleError string
  | ToastError string string
  | WsSend nat string
  | Uncaught exn

record app_state =
  app_status :: json
  app_pipelineId :: json
  app_components :: json
  app_pipelineData :: json
  app_console :: "effect list"

text \<open>
  \<^verbatim>\<open>handleMessage\<close> has no try block: an exception of \<^verbatim>\<open>JSON.parse\<close> or of a property
  read leaves the handler. The result pairs the escaping exception, if any, with the
  state left behind.
\<close>

definition handleMessage :: "payload \<Rightarrow> app_state \<Rightarrow> exn option \<times> app_state" where
  "handleMessage p a =
     (case p of
        Malformed \<Rightarrow> (Some SyntaxError, a)
      | Decoded data \<Rightarrow>
          (case property data ''status'' of
             Inl e \<Rightarrow> (Some e, a)
           | Inr st \<Rightarrow>
               if st = Some (JStr ''connected'')
               then (None, a\<lparr>app_console := app_console a @ [ConsoleLog ''connected'']\<rparr>)
               else
                 guarded_set data ''pipelineData'' (\<lambda>v s. s\<lparr>app_pipelineData := v\<rparr>)
                   (guarded_set data ''components'' (\<lambda>v s. s\<lparr>app_components := v\<rparr>)
                     (guarded_set data ''pipelineId'' (\<lambda>v s. s\<lparr>app_pipelineId := v\<rparr>)
                       (guarded_set data ''status'' (\<lambda>v s. s\<lparr>app_status := v\<rparr>)
                         (None, a))))))"

section \<open>PipelineMonitor.tsx: state, sockets and timers\<close>

datatype ready_state = CONNECTING | OPEN | CLOSING | CLOSED

text \<open>
  A WebSocket object: its ready state and its four handler slots. A slot is
  \<^verbatim>\<open>null\<close> (\<open>None\<close>) or holds the closure that \<^verbatim>\<open>connectWebSocket\<close> made for this
  socket, which captures the socket and the \<^verbatim>\<open>pipeline_id\<close> of its render.
\<close>

record websocket =
  readyState :: ready_state
  onopen :: "string option"
  onmessage :: "string option"
  onerror :: "string option"
  onclose :: "string option"

text \<open>The two timer callbacks: the watchdog of a socket, and the reconnect.\<close>

datatype timer_cb = Watchdog nat string | Reconnect string

record props =
  initialStatus :: json
  pipeline_id :: string
  initialComponents :: json

text \<open>
  The component: its four state variables (the snapshot), its four refs, and the part
  of the runtime it acts on: the sockets created so far, the pending timers as
  (handle, callback, delay in ms) in creation order, and what it logged or sent.
  Timer handles are positive, so a stored handle is always truthy.
\<close>

record pm_state =
  status :: json
  components :: json
  wsConnected :: bool
  pipelineData :: json
  wsRef :: "nat option"
  reconnectTimeoutRef :: "nat option"
  connectionTimeoutRef :: "nat option"
  isComponentMounted :: bool
  sockets :: "nat \<Rightarrow> websocket"
  next_socket :: nat
  timers :: "(nat \<times> timer_cb \<times> nat) list"
  next_timer :: nat
  effects :: "effect list"

definition snapshot :: "pm_state \<Rightarrow> json \<times> json \<times> json \<times> bool" where
  "snapshot s = (status s, components s, pipelineData s, wsConnected s)"

definition setTimeout :: "timer_cb \<Rightarrow> nat \<Rightarrow> pm_state \<Rightarrow> nat \<times> pm_state" where
  "setTimeout cb ms s =
     (next_timer s,
      s\<lparr>timers := timers s @ [(next_timer s, cb, ms)], next_timer := Suc (next_timer s)\<rparr>)"

definition clearTimeout :: "nat \<Rightarrow> pm_state \<Rightarrow> pm_state" where
  "clearTimeout t s = s\<lparr>timers := filter (\<lambda>x. fst x \<noteq> t) (timers s)\<rparr>"

definition resetState :: "props \<Rightarrow> pm_state \<Rightarrow> pm_state" where
  "resetState p s =
     s\<lparr>status := initialStatus p, components := initialComponents p,
       wsConnected := False, pipelineData := JObj []\<rparr>"

definition detach_and_close :: "websocket \<Rightarrow> websocket" where
  "detach_and_close w =
     (let w1 = w\<lparr>onopen := None, onclose := None, onerror := None, onmessage := None\<rparr>
      in if readyState w1 = OPEN \<or> readyState w1 = CONNECTING
         then w1\<lparr>readyState := CLOSING\<rparr> else w1)"

definition cleanupWebSocket :: "pm_state \<Rightarrow> pm_state" where
  "cleanupWebSocket s =
     (let s1 = (case reconnectTimeoutRef s of
                  Some t \<Rightarrow> (clearTimeout t s)\<lparr>reconnectTimeoutRef := None\<rparr>
                | None \<Rightarrow> s);
          s2 = (case connectionTimeoutRef s1 of
                  Some t \<Rightarrow> (clearTimeout t s1)\<lparr>connectionTimeoutRef := None\<rparr>
                | None \<Rightarrow> s1)
      in case wsRef s2 of
           Some w \<Rightarrow> s2\<lparr>sockets := (sockets s2)(w := detach_and_close (sockets s2 w)),
                       wsRef := None\<rparr>
         | None \<Rightarrow> s2)"

definition connectWebSocket :: "string \<Rightarrow> pm_state \<Rightarrow> pm_state" where
  "connectWebSocket pid s =
     (let s1 = cleanupWebSocket s in
      if \<not> isComponentMounted s1 then s1
      else
        let w = next_socket s1;
            ws = \<lparr>readyState = CONNECTING, onopen = None, onmessage = None,
                  onerror = None, onclose = None\<rparr>;
            s2 = s1\<lparr>sockets := (sockets s1)(w := ws), next_socket := Suc w, wsRef := Some w\<rparr>;
            (t, s3) = setTimeout (Watchdog w pid) 5000 s2;
            s4 = s3\<lparr>connectionTimeoutRef := Some t\<rparr>
        in s4\<lparr>sockets := (sockets s4)(w := (sockets s4 w)
                 \<lparr>onopen := Some pid, onmessage := Some pid,
                  onerror := Some pid, onclose := Some pid\<rparr>)\<rparr>)"

text \<open>The watchdog armed by \<^verbatim>\<open>connectWebSocket\<close> for the socket \<open>w\<close>.\<close>

definition watchdog_callback :: "nat \<Rightarrow> string \<Rightarrow> pm_state \<Rightarrow> pm_state" where
  "watchdog_callback w pid s =
     (if readyState (sockets s w) \<noteq> OPEN
      then
        let s1 = cleanupWebSocket s in
        if isComponentMounted s1
        then s1\<lparr>status := JStr ''error'',
                effects := effects s1 @ [ToastError pid ''timeout'']\<rparr>
        else s1
      else s)"

text \<open>
  \<^verbatim>\<open>ws.send\<close> throws on a socket that is still connecting, sends on an open one and
  drops the data on a closing or closed one.
\<close>

definition ws_send :: "nat \<Rightarrow> string \<Rightarrow> pm_state \<Rightarrow> pm_state" where
  "ws_send w pid s =
     (case readyState (sockets s w) of
        CONNECTING \<Rightarrow> s\<lparr>effects := effects s @ [Uncaught InvalidStateError]\<rparr>
      | OPEN \<Rightarrow> s\<lparr>effects := effects s @ [WsSend w pid]\<rparr>
      | CLOSING \<Rightarrow> s
      | CLOSED \<Rightarrow> s)"

definition onopen_handler :: "nat \<Rightarrow> string \<Rightarrow> pm_state \<Rightarrow> pm_state" where
  "onopen_handler w pid s =
     (if isComponentMounted s
      then
        let s1 = s\<lparr>wsConnected := True\<rparr>;
            s2 = (case connectionTimeoutRef s1 of
                    Some t \<Rightarrow> clearTimeout t s1
                  | None \<Rightarrow> s1)
        in ws_send w pid s2
      else s)"

text \<open>The try block of \<^verbatim>\<open>ws.onmessage\<close>, and the handler with its catch clause.\<close>

definition onmessage_try :: "payload \<Rightarrow> pm_state \<Rightarrow> exn option \<times> pm_state" where
  "onmessage_try p s =
     (case p of
        Malformed \<Rightarrow> (Some SyntaxError, s)
      | Decoded data \<Rightarrow>
          guarded_set data ''pipeline_data'' (\<lambda>v s. s\<lparr>pipelineData := v\<rparr>)
            (guarded_set data ''components'' (\<lambda>v s. s\<lparr>components := v\<rparr>)
              (guarded_set data ''status'' (\<lambda>v s. s\<lparr>status := v\<rparr>)
                (None, s))))"

definition onmessage_handler :: "payload \<Rightarrow> pm_state \<Rightarrow> pm_state" where
  "onmessage_handler p s =
     (if \<not> isComponentMounted s then s
      else
        case onmessage_try p s of
          (None, s') \<Rightarrow> s'
        | (Some e, s') \<Rightarrow> s'\<lparr>effects := effects s' @ [ConsoleError ''parse'']\<rparr>)"

definition onerror_handler :: "string \<Rightarrow> pm_state \<Rightarrow> pm_state" where
  "onerror_handler pid s =
     (if \<not> isComponentMounted s then s
      else s\<lparr>status := JStr ''error'',
             effects := effects s @ [ConsoleError ''websocket'', ToastError pid ''error'']\<rparr>)"

definition onclose_handler :: "nat \<Rightarrow> string \<Rightarrow> pm_state \<Rightarrow> pm_state" where
  "onclose_handler w pid s =
     (if \<not> isComponentMounted s then s
      else
        let s1 = s\<lparr>wsConnected := False\<rparr> in
        if isComponentMounted s1 \<and> wsRef s1 = Some w
        then
          let (t, s2) = setTimeout (Reconnect pid) 3000 s1
          in s2\<lparr>reconnectTimeoutRef := Some t\<rparr>
        else s1)"

subsection \<open>The effect on \<^verbatim>\<open>pipeline_id\<close>\<close>

definition init_state :: "props \<Rightarrow> pm_state" where
  "init_state p =
     \<lparr>status = initialStatus p, components = initialComponents p, wsConnected = False,
      pipelineData = JObj [], wsRef = None, reconnectTimeoutRef = None,
      connectionTimeoutRef = None, isComponentMounted = True,
      sockets = (\<lambda>_. \<lparr>readyState = CLOSED, onopen = None, onmessage = None,
                      onerror = None, onclose = None\<rparr>),
      next_socket = 0, timers = [], next_timer = 1, effects = []\<rparr>"

definition effect_body :: "props \<Rightarrow> pm_state \<Rightarrow> pm_state" where
  "effect_body p s =
     connectWebSocket (pipeline_id p) (resetState p (s\<lparr>isComponentMounted := True\<rparr>))"

definition effect_cleanup :: "pm_state \<Rightarrow> pm_state" where
  "effect_cleanup s = cleanupWebSocket (s\<lparr>isComponentMounted := False\<rparr>)"

definition mount :: "props \<Rightarrow> pm_state" where
  "mount p = effect_body p (init_state p)"

text \<open>A render with a new \<^verbatim>\<open>pipeline_id\<close>: the old effect is cleaned up, the new one runs.\<close>

definition change_pipeline_id :: "props \<Rightarrow> pm_state \<Rightarrow> pm_state" where
  "change_pipeline_id p s = effect_body p (effect_cleanup s)"

subsection \<open>What the runtime does: socket events and timers\<close>

text \<open>
  An event is dispatched to the handler in the socket's slot at that moment, if any.
  A socket opens once, from CONNECTING; delivers messages while OPEN; closes once.
  A timer fires if it is still pending. An event that cannot occur changes nothing.
\<close>

datatype event =
    EvOpen nat
  | EvMessage nat payload
  | EvError nat
  | EvClose nat
  | EvTimer nat

definition set_readyState :: "nat \<Rightarrow> ready_state \<Rightarrow> pm_state \<Rightarrow> pm_state" where
  "set_readyState w r s = s\<lparr>sockets := (sockets s)(w := (sockets s w)\<lparr>readyState := r\<rparr>)\<rparr>"

fun fire :: "event \<Rightarrow> pm_state \<Rightarrow> pm_state" where
  "fire (EvOpen w) s =
     (if w < next_socket s \<and> readyState (sockets s w) = CONNECTING
      then
        let s1 = set_readyState w OPEN s in
        (case onopen (sockets s1 w) of
           Some pid \<Rightarrow> onopen_handler w pid s1
         | None \<Rightarrow> s1)
      else s)"
| "fire (EvMessage w p) s =
     (if w < next_socket s \<and> readyState (sockets s w) = OPEN
      then (case onmessage (sockets s w) of
              Some pid \<Rightarrow> onmessage_handler p s
            | None \<Rightarrow> s)
      else s)"
| "fire (EvError w) s =
     (if w < next_socket s \<and> readyState (sockets s w) \<noteq> CLOSED
      then (case onerror (sockets s w) of
              Some pid \<Rightarrow> onerror_handler pid s
            | None \<Rightarrow> s)
      else s)"
| "fire (EvClose w) s =
     (if w < next_socket s \<and> readyState (sockets s w) \<noteq> CLOSED
      then
        let s1 = set_readyState w CLOSED s in
        (case onclose (sockets s1 w) of
           Some pid \<Rightarrow> onclose_handler w pid s1
         | None \<Rightarrow> s1)
      else s)"
| "fire (EvTimer t) s =
     (case map_of (timers s) t of
        None \<Rightarrow> s
      | Some (cb, ms) \<Rightarrow>
          let s1 = clearTimeout t s in
          (case cb of
             Watchdog w pid \<Rightarrow> watchdog_callback w pid s1
           | Reconnect pid \<Rightarrow> connectWebSocket pid s1))"

text \<open>
  A callback called directly, whatever the slots and the timer table say: a late or
  stale callback of any socket or timer.
\<close>

datatype callback =
    CbOpen nat string
  | CbMessage payload
  | CbError string
  | CbClose nat string
  | CbWatchdog nat string
  | CbReconnect string

fun invoke :: "callback \<Rightarrow> pm_state \<Rightarrow> pm_state" where
  "invoke (CbOpen w pid) s = onopen_handler w pid s"
| "invoke (CbMessage p) s = onmessage_handler p s"
| "invoke (CbError pid) s = onerror_handler pid s"
| "invoke (CbClose w pid) s = onclose_handler w pid s"
| "invoke (CbWatchdog w pid) s = watchdog_callback w pid s"
| "invoke (CbReconnect pid) s = connectWebSocket pid s"

datatype happening = Fires event | Invokes callback

fun happen :: "happening \<Rightarrow> pm_state \<Rightarrow> pm_state" where
  "happen (Fires e) s = fire e s"
| "happen (Invokes c) s = invoke c s"

fun run :: "happening list \<Rightarrow> pm_state \<Rightarrow> pm_state" where
  "run [] s = s"
| "run (h # hs) s = run hs (happen h s)"

section \<open>PipelineMonitor.tsx: the derived views\<close>

subsection \<open>\<^verbatim>\<open>getComponentData\<close>\<close>

definition startsWith :: "string \<Rightarrow> string \<Rightarrow> bool" where
  "startsWith key p = (take (length p) key = p)"

text \<open>\<^verbatim>\<open>key.split('.')\<close>: the segments between the separators, empty ones included.\<close>

fun split :: "char \<Rightarrow> string \<Rightarrow> string list" where
  "split c [] = [[]]"
| "split c (x # xs) =
     (if x = c then [] # split c xs
      else (case split c xs of
              seg # segs \<Rightarrow> (x # seg) # segs
            | [] \<Rightarrow> [[x]]))"

text \<open>An array read \<^verbatim>\<open>xs[i]\<close>: \<^verbatim>\<open>undefined\<close> (\<open>None\<close>) out of range.\<close>

definition index :: "'a list \<Rightarrow> nat \<Rightarrow> 'a option" where
  "index xs i = (if i < length xs then Some (xs ! i) else None)"

function decimal :: "nat \<Rightarrow> string" where
  "decimal n =
     (if n < 10 then [''0123456789'' ! n]
      else decimal (n div 10) @ [''0123456789'' ! (n mod 10)])"
  by pat_completeness auto
termination
  by (relation "measure (\<lambda>n. n)") auto

text \<open>
  \<^verbatim>\<open>Object.entries\<close>: the pairs of an object; index keys for an array and for the
  characters of a string; nothing for a number or a boolean; a TypeError for
  \<^verbatim>\<open>null\<close>.
\<close>

fun Object_entries :: "json \<Rightarrow> exn + (string \<times> json) list" where
  "Object_entries JNull = Inl TypeError"
| "Object_entries (JObj kvs) = Inr kvs"
| "Object_entries (JArr xs) = Inr (zip (map decimal [0..<length xs]) xs)"
| "Object_entries (JStr cs) = Inr (zip (map decimal [0..<length cs]) (map (\<lambda>c. JStr [c]) cs))"
| "Object_entries (JBool b) = Inr []"
| "Object_entries (JNum n) = Inr []"

definition getComponentData :: "json \<Rightarrow> string \<Rightarrow> exn + (string option \<times> json) list" where
  "getComponentData pd componentName =
     (case Object_entries pd of
        Inl e \<Rightarrow> Inl e
      | Inr es \<Rightarrow>
          Inr (map (\<lambda>(key, value). (index (split CHR ''.'' key) 1, value))
                 (filter (\<lambda>(key, value). startsWith key (componentName @ ''.'')) es)))"

text \<open>
  The contract of the data mapper in the words of the specification: the pairs whose
  composite key has the prefix \<open>name.\<close>, with that prefix stripped from the key.
\<close>

definition componentFields_spec :: "(string \<times> json) list \<Rightarrow> string \<Rightarrow> (string \<times> json) list" where
  "componentFields_spec es name =
     map (\<lambda>(key, value). (drop (length name + 1) key, value))
       (filter (\<lambda>(key, value). startsWith key (name @ ''.'')) es)"

subsection \<open>\<^verbatim>\<open>timelineItems\<close>\<close>

text \<open>
  A value of the interface \<^verbatim>\<open>PipelineComponent\<close>: an object with a string
  \<^verbatim>\<open>name\<close> and, when present, numeric \<^verbatim>\<open>order\<close> and \<^verbatim>\<open>execution_time\<close>.
\<close>

definition is_number_or_absent :: "json option \<Rightarrow> bool" where
  "is_number_or_absent v = (case v of None \<Rightarrow> True | Some (JNum n) \<Rightarrow> True | Some _ \<Rightarrow> False)"

fun is_PipelineComponent :: "json \<Rightarrow> bool" where
  "is_PipelineComponent (JObj kvs) =
     ((case map_of kvs ''name'' of Some (JStr n) \<Rightarrow> True | _ \<Rightarrow> False)
      \<and> is_number_or_absent (map_of kvs ''order'')
      \<and> is_number_or_absent (map_of kvs ''execution_time''))"
| "is_PipelineComponent _ = False"

text \<open>The sort key \<^verbatim>\<open>(a.order || 0)\<close> of a component.\<close>

definition order_of :: "json \<Rightarrow> rat" where
  "order_of c = (case property c ''order'' of Inr (Some (JNum n)) \<Rightarrow> n | _ \<Rightarrow> 0)"

definition name_of :: "json \<Rightarrow> string" where
  "name_of c = (case property c ''name'' of Inr (Some (JStr n)) \<Rightarrow> n | _ \<Rightarrow> [])"

record timeline_item =
  item_running :: bool
  item_name :: string
  item_data :: "(string option \<times> json) list"

text \<open>
  The render computes \<^verbatim>\<open>components.sort(cmp).map(...)\<close>. \<^verbatim>\<open>Array.prototype.sort\<close>
  sorts the array it is called on, in place and stably, and returns that same array; the
  array is the one the state variable \<^verbatim>\<open>components\<close> holds. With numeric keys the
  comparator \<^verbatim>\<open>(a.order || 0) - (b.order || 0)\<close> is negative, zero or positive as the
  keys compare, so the outcome is the stable sort by \<open>order_of\<close>. The result is the
  list of items, one per component in sorted order, and the state after the render.
  \<open>None\<close> stands for a render that this development does not describe: the list is
  not an array of \<^verbatim>\<open>PipelineComponent\<close> values or the data map is \<^verbatim>\<open>null\<close>, so
  that the render throws or the order is left to the engine. The markup built from an
  item is presentation and is left out.
\<close>

definition timelineItems :: "pm_state \<Rightarrow> (timeline_item list \<times> pm_state) option" where
  "timelineItems s =
     (case components s of
        JArr cs \<Rightarrow>
          if list_all is_PipelineComponent cs \<and> pipelineData s \<noteq> JNull
          then
            let sorted_cs = sort_key order_of cs;
                s' = s\<lparr>components := JArr sorted_cs\<rparr>
            in Some (map (\<lambda>c. \<lparr>item_running = (status s' = JStr ''running''),
                               item_name = name_of c,
                               item_data = (case getComponentData (pipelineData s') (name_of c) of
                                              Inr d \<Rightarrow> d | Inl e \<Rightarrow> [])\<rparr>) sorted_cs,
                     s')
          else None
      | _ \<Rightarrow> None)"

section \<open>The states the component can be in\<close>

inductive reachable :: "pm_state \<Rightarrow> bool" where
  reach_mount: "reachable (mount p)"
| reach_fire: "reachable s \<Longrightarrow> reachable (fire e s)"
| reach_change: "reachable s \<Longrightarrow> reachable (change_pipeline_id p s)"
| reach_unmount: "reachable s \<Longrightarrow> reachable (effect_cleanup s)"
| reach_render: "reachable s \<Longrightarrow> timelineItems s = Some (v, s') \<Longrightarrow> reachable s'"

text \<open>The pending reconnect timers.\<close>

fun is_reconnect :: "nat \<times> timer_cb \<times> nat \<Rightarrow> bool" where
  "is_reconnect (t, Reconnect pid, ms) = True"
| "is_reconnect (t, Watchdog w pid, ms) = False"

definition reconnect_timers :: "pm_state \<Rightarrow> (nat \<times> timer_cb \<times> nat) list" where
  "reconnect_timers s = filter is_reconnect (timers s)"

definition detached :: "websocket \<Rightarrow> bool" where
  "detached w = (onopen w = None \<and> onmessage w = None \<and> onerror w = None \<and> onclose w = None)"

text \<open>
  What holds in every reachable state: only the socket in \<^verbatim>\<open>wsRef\<close> has handlers;
  every pending timer is the one its ref names, and a reconnect is pending only while
  \<^verbatim>\<open>wsRef\<close> still holds the closed socket that scheduled it; after the cleanup of the
  effect nothing is pending.
\<close>

fun timer_ok :: "pm_state \<Rightarrow> nat \<times> timer_cb \<times> nat \<Rightarrow> bool" where
  "timer_ok s (t, Reconnect pid, ms) =
     (reconnectTimeoutRef s = Some t \<and>
      (case wsRef s of Some w \<Rightarrow> readyState (sockets s w) = CLOSED | None \<Rightarrow> False))"
| "timer_ok s (t, Watchdog w pid, ms) = (connectionTimeoutRef s = Some t)"

definition wired :: "pm_state \<Rightarrow> bool" where
  "wired s =
     ((\<forall>w. wsRef s \<noteq> Some w \<longrightarrow> detached (sockets s w))
      \<and> list_all (timer_ok s) (timers s))"

definition pm_inv :: "pm_state \<Rightarrow> bool" where
  "pm_inv s = (wired s \<and> (\<not> isComponentMounted s \<longrightarrow> timers s = [] \<and> wsRef s = None))"

section \<open>Vocabulary of the properties\<close>

text \<open>A field is present in a decoded frame when the frame is an object with that key.\<close>

fun has_field :: "json \<Rightarrow> string \<Rightarrow> bool" where
  "has_field (JObj kvs) k = (k \<in> fst ` set kvs)"
| "has_field _ k = False"

text \<open>The same object with the key \<open>k\<close> removed.\<close>

definition without :: "string \<Rightarrow> (string \<times> json) list \<Rightarrow> (string \<times> json) list" where
  "without k kvs = filter (\<lambda>kv. fst kv \<noteq> k) kvs"

text \<open>The four guarded setter calls of the else branch of \<^verbatim>\<open>handleMessage\<close>.\<close>

definition handle_sets :: "json \<Rightarrow> app_state \<Rightarrow> exn option \<times> app_state" where
  "handle_sets data a =
     guarded_set data ''pipelineData'' (\<lambda>v s. s\<lparr>app_pipelineData := v\<rparr>)
       (guarded_set data ''components'' (\<lambda>v s. s\<lparr>app_components := v\<rparr>)
         (guarded_set data ''pipelineId'' (\<lambda>v s. s\<lparr>app_pipelineId := v\<rparr>)
           (guarded_set data ''status'' (\<lambda>v s. s\<lparr>app_status := v\<rparr>)
             (None, a))))"

text \<open>The pairs of the specification's contract, in the shape \<open>getComponentData\<close> returns.\<close>

definition keyed :: "(string \<times> json) list \<Rightarrow> (string option \<times> json) list" where
  "keyed es = map (\<lambda>(key, value). (Some key, value)) es"

text \<open>
  What a step leaves alone when it neither mutates the snapshot nor creates a socket
  or a timer: the four state variables, the two allocation counters, and the mounted
  flag; the pending timers can only become fewer.
\<close>

definition unchanged_by :: "pm_state \<Rightarrow> pm_state \<Rightarrow> bool" where
  "unchanged_by s s' =
     (snapshot s' = snapshot s \<and> next_socket s' = next_socket s \<and> next_timer s' = next_timer s
      \<and> set (timers s') \<subseteq> set (timers s) \<and> isComponentMounted s' = isComponentMounted s)"

subsection \<open>Concrete inputs\<close>

definition p0 :: props where
  "p0 = \<lparr>initialStatus = JStr ''initialized'', pipeline_id = ''0'', initialComponents = JArr []\<rparr>"

definition p1 :: props where
  "p1 = \<lparr>initialStatus = JStr ''running'', pipeline_id = ''1'', initialComponents = JArr []\<rparr>"

definition app0 :: app_state where
  "app0 = \<lparr>app_status = JStr ''initialized'', app_pipelineId = JStr ''0'', app_components = JArr [],
           app_pipelineData = JNull, app_console = []\<rparr>"

definition compA :: json where
  "compA = JObj [(''name'', JStr ''A''), (''order'', JNum 1)]"

definition compB :: json where
  "compB = JObj [(''name'', JStr ''B''), (''order'', JNum 2)]"

declare guarded_set.simps [simp del]

section \<open>Properties of the message handlers\<close>

lemma property_absent:
  "\<not> has_field data k \<Longrightarrow> property data k = Inl TypeError \<or> property data k = Inr None"
  by (cases data) (auto simp: map_of_eq_None_iff)

lemma guarded_set_get:
  assumes "\<not> has_field data k \<or> (\<forall>v s. get (setter v s) = get s)"
  shows "get (snd (guarded_set data k setter x)) = get (snd x)"
proof (cases x)
  case (Pair e s)
  show ?thesis
  proof (cases e)
    case None
    with Pair assms property_absent[of data k] show ?thesis
      by (auto simp: guarded_set.simps split: sum.splits option.splits)
  next
    case (Some a)
    with Pair show ?thesis by (simp add: guarded_set.simps)
  qed
qed

lemma onmessage_try_status:
  "\<not> has_field data ''status'' \<Longrightarrow> status (snd (onmessage_try (Decoded data) s)) = status s"
  by (simp add: onmessage_try_def guarded_set_get[where get=status])

lemma onmessage_try_components:
  "\<not> has_field data ''components'' \<Longrightarrow> components (snd (onmessage_try (Decoded data) s)) = components s"
  by (simp add: onmessage_try_def guarded_set_get[where get=components])

lemma onmessage_try_pipelineData:
  "\<not> has_field data ''pipeline_data'' \<Longrightarrow> pipelineData (snd (onmessage_try (Decoded data) s)) = pipelineData s"
  by (simp add: onmessage_try_def guarded_set_get[where get=pipelineData])

lemma onmessage_try_other:
  assumes "\<And>v s. get (s\<lparr>status := v\<rparr>) = get s" "\<And>v s. get (s\<lparr>components := v\<rparr>) = get s"
    "\<And>v s. get (s\<lparr>pipelineData := v\<rparr>) = get s"
  shows "get (snd (onmessage_try p s)) = get s"
  by (cases p) (simp_all add: onmessage_try_def guarded_set_get[where get=get] assms)

lemma onmessage_handler_eq:
  "onmessage_handler p s =
     (if isComponentMounted s
      then (snd (onmessage_try p s))\<lparr>effects :=
              effects s @ (case fst (onmessage_try p s) of None \<Rightarrow> [] | Some e \<Rightarrow> [ConsoleError ''parse''])\<rparr>
      else s)"
  using onmessage_try_other[of effects p s]
  by (auto simp: onmessage_handler_def split: prod.splits option.splits)

lemma handleMessage_cases:
  "handleMessage p a = (Some SyntaxError, a) \<or> handleMessage p a = (Some TypeError, a)
   \<or> handleMessage p a = (None, a\<lparr>app_console := app_console a @ [ConsoleLog ''connected'']\<rparr>)
   \<or> (\<exists>data. p = Decoded data \<and> handleMessage p a = handle_sets data a)"
proof (cases p)
  case Malformed
  then show ?thesis by (simp add: handleMessage_def)
next
  case (Decoded data)
  show ?thesis
  proof (cases data)
    case JNull
    with Decoded show ?thesis by (simp add: handleMessage_def)
  next
    case (JObj kvs)
    with Decoded show ?thesis by (simp add: handleMessage_def handle_sets_def)
  qed (use Decoded in \<open>simp_all add: handleMessage_def handle_sets_def\<close>)
qed

lemma handleMessage_status:
  "\<not> has_field data ''status'' \<Longrightarrow> app_status (snd (handleMessage (Decoded data) a)) = app_status a"
  using handleMessage_cases[of "Decoded data" a]
  by (auto simp: handle_sets_def guarded_set_get[where get=app_status])

lemma handleMessage_pipelineId:
  "\<not> has_field data ''pipelineId'' \<Longrightarrow> app_pipelineId (snd (handleMessage (Decoded data) a)) = app_pipelineId a"
  using handleMessage_cases[of "Decoded data" a]
  by (auto simp: handle_sets_def guarded_set_get[where get=app_pipelineId])

lemma handleMessage_components:
  "\<not> has_field data ''components'' \<Longrightarrow> app_components (snd (handleMessage (Decoded data) a)) = app_components a"
  using handleMessage_cases[of "Decoded data" a]
  by (auto simp: handle_sets_def guarded_set_get[where get=app_components])

lemma handleMessage_pipelineData:
  "\<not> has_field data ''pipelineData'' \<Longrightarrow> app_pipelineData (snd (handleMessage (Decoded data) a)) = app_pipelineData a"
  using handleMessage_cases[of "Decoded data" a]
  by (auto simp: handle_sets_def guarded_set_get[where get=app_pipelineData])

lemma onmessage_handler_absent:
  "\<not> has_field data ''status'' \<Longrightarrow> status (onmessage_handler (Decoded data) s) = status s"
  "\<not> has_field data ''components'' \<Longrightarrow> components (onmessage_handler (Decoded data) s) = components s"
  "\<not> has_field data ''pipeline_data'' \<Longrightarrow> pipelineData (onmessage_handler (Decoded data) s) = pipelineData s"
  by (simp_all add: onmessage_handler_eq onmessage_try_status onmessage_try_components onmessage_try_pipelineData)

lemma mount_snapshot:
  "status (mount p) = initialStatus p" "components (mount p) = initialComponents p"
  "pipelineData (mount p) = JObj []" "wsConnected (mount p) = False"
  by (simp_all add: mount_def effect_body_def init_state_def resetState_def connectWebSocket_def
      cleanupWebSocket_def setTimeout_def Let_def)

lemma mount_p0_fields:
  "timers (mount p0) = [(1, Watchdog 0 ''0'', 5000)]" "next_timer (mount p0) = 2"
  "next_socket (mount p0) = 1" "isComponentMounted (mount p0)" "wsRef (mount p0) = Some 0"
  "status (mount p0) = JStr ''initialized''"
  "sockets (mount p0) 0 = \<lparr>readyState = CONNECTING, onopen = Some ''0'', onmessage = Some ''0'',
       onerror = Some ''0'', onclose = Some ''0''\<rparr>"
  by (simp_all add: mount_def effect_body_def init_state_def resetState_def connectWebSocket_def
      cleanupWebSocket_def setTimeout_def p0_def Let_def)

lemma onmessage_handler_wsConnected: "wsConnected (onmessage_handler p s) = wsConnected s"
  by (simp add: onmessage_handler_eq onmessage_try_other[where get=wsConnected])

text \<open>
  Claim C4. For every decoded frame and every snapshot, a field that is absent from the
  frame keeps its value: in \<^verbatim>\<open>ws.onmessage\<close> of the monitor for \<^verbatim>\<open>status\<close>,
  \<^verbatim>\<open>components\<close> and \<^verbatim>\<open>pipeline_data\<close>, and in \<^verbatim>\<open>handleMessage\<close> of the
  application for \<^verbatim>\<open>status\<close>, \<^verbatim>\<open>pipelineId\<close>, \<^verbatim>\<open>components\<close> and
  \<^verbatim>\<open>pipelineData\<close>. So a handler changes only fields that are present; the
  connected flag of the monitor is never changed by a frame.
\<close>

theorem partial_update_keeps_absent_fields:
  "(\<not> has_field data ''status'' \<longrightarrow> status (onmessage_handler (Decoded data) s) = status s)
   \<and> (\<not> has_field data ''components'' \<longrightarrow> components (onmessage_handler (Decoded data) s) = components s)
   \<and> (\<not> has_field data ''pipeline_data'' \<longrightarrow> pipelineData (onmessage_handler (Decoded data) s) = pipelineData s)
   \<and> (\<not> has_field data ''status'' \<longrightarrow> app_status (snd (handleMessage (Decoded data) a)) = app_status a)
   \<and> (\<not> has_field data ''pipelineId'' \<longrightarrow> app_pipelineId (snd (handleMessage (Decoded data) a)) = app_pipelineId a)
   \<and> (\<not> has_field data ''components'' \<longrightarrow> app_components (snd (handleMessage (Decoded data) a)) = app_components a)
   \<and> (\<not> has_field data ''pipelineData'' \<longrightarrow> app_pipelineData (snd (handleMessage (Decoded data) a)) = app_pipelineData a)
   \<and> wsConnected (onmessage_handler (Decoded data) s) = wsConnected s"
  by (simp add: onmessage_handler_absent handleMessage_status handleMessage_pipelineId
      handleMessage_components handleMessage_pipelineData onmessage_handler_wsConnected)

text \<open>
  The frames \<^verbatim>\<open>{"status": "running"}\<close> and \<^verbatim>\<open>{"components": []}\<close> on a freshly
  mounted monitor and on the initial application state.
\<close>

theorem partial_update_witness:
  "\<not> has_field (JObj [(''status'', JStr ''running'')]) ''components''
   \<and> \<not> has_field (JObj [(''status'', JStr ''running'')]) ''pipeline_data''
   \<and> \<not> has_field (JObj [(''status'', JStr ''running'')]) ''pipelineData''
   \<and> \<not> has_field (JObj [(''status'', JStr ''running'')]) ''pipelineId''
   \<and> \<not> has_field (JObj [(''components'', JArr [])]) ''status''
   \<and> components (onmessage_handler (Decoded (JObj [(''status'', JStr ''running'')])) (mount p0)) = components (mount p0)
   \<and> pipelineData (onmessage_handler (Decoded (JObj [(''status'', JStr ''running'')])) (mount p0)) = pipelineData (mount p0)
   \<and> status (onmessage_handler (Decoded (JObj [(''components'', JArr [])])) (mount p0)) = status (mount p0)
   \<and> app_pipelineId (snd (handleMessage (Decoded (JObj [(''status'', JStr ''running'')])) app0)) = app_pipelineId app0
   \<and> app_components (snd (handleMessage (Decoded (JObj [(''status'', JStr ''running'')])) app0)) = app_components app0
   \<and> app_pipelineData (snd (handleMessage (Decoded (JObj [(''status'', JStr ''running'')])) app0)) = app_pipelineData app0
   \<and> app_status (snd (handleMessage (Decoded (JObj [(''components'', JArr [])])) app0)) = app_status app0
   \<and> status (onmessage_handler (Decoded (JObj [(''status'', JStr ''running'')])) (mount p0)) = JStr ''running''
   \<and> app_status (snd (handleMessage (Decoded (JObj [(''status'', JStr ''running'')])) app0)) = JStr ''running''"
proof -
  have "status (onmessage_handler (Decoded (JObj [(''status'', JStr ''running'')])) (mount p0)) = JStr ''running''"
    by (simp add: onmessage_handler_def onmessage_try_def guarded_set.simps mount_p0_fields)
  moreover have "app_status (snd (handleMessage (Decoded (JObj [(''status'', JStr ''running'')])) app0)) = JStr ''running''"
    by (simp add: handleMessage_def guarded_set.simps)
  ultimately show ?thesis
    using partial_update_keeps_absent_fields[of "JObj [(''status'', JStr ''running'')]" "mount p0" app0]
      partial_update_keeps_absent_fields[of "JObj [(''components'', JArr [])]" "mount p0" app0]
    by simp
qed

lemma map_of_without: "map_of (without k kvs) k' = (if k' = k then None else map_of kvs k')"
  by (induction kvs) (auto simp: without_def)

lemma guarded_set_without:
  assumes "map_of kvs k = Some v" "\<not> truthy v"
  shows "guarded_set (JObj (without k kvs)) k' setter x = guarded_set (JObj kvs) k' setter x"
proof (cases x)
  case (Pair e s)
  then show ?thesis using assms
    by (cases e) (auto simp: guarded_set.simps map_of_without)
qed

lemma onmessage_handler_malformed:
  "onmessage_handler Malformed s =
     (if isComponentMounted s then s\<lparr>effects := effects s @ [ConsoleError ''parse'']\<rparr> else s)"
  by (simp add: onmessage_handler_def onmessage_try_def)

text \<open>
  Claim C10. The guards test the truthiness of the value, not the presence of the key:
  a frame that carries a key with a falsy value is handled exactly as the same frame
  without that key, by both handlers, so that the field of the snapshot that the key
  names is left unchanged.
\<close>

theorem falsy_field_is_absent_field:
  "map_of kvs k = Some v \<and> \<not> truthy v \<longrightarrow>
     onmessage_handler (Decoded (JObj kvs)) s = onmessage_handler (Decoded (JObj (without k kvs))) s
     \<and> handleMessage (Decoded (JObj kvs)) a = handleMessage (Decoded (JObj (without k kvs))) a
     \<and> (k = ''status'' \<longrightarrow> status (onmessage_handler (Decoded (JObj kvs)) s) = status s)
     \<and> (k = ''components'' \<longrightarrow> components (onmessage_handler (Decoded (JObj kvs)) s) = components s)
     \<and> (k = ''pipeline_data'' \<longrightarrow> pipelineData (onmessage_handler (Decoded (JObj kvs)) s) = pipelineData s)
     \<and> (k = ''status'' \<longrightarrow> app_status (snd (handleMessage (Decoded (JObj kvs)) a)) = app_status a)
     \<and> (k = ''pipelineId'' \<longrightarrow> app_pipelineId (snd (handleMessage (Decoded (JObj kvs)) a)) = app_pipelineId a)
     \<and> (k = ''components'' \<longrightarrow> app_components (snd (handleMessage (Decoded (JObj kvs)) a)) = app_components a)
     \<and> (k = ''pipelineData'' \<longrightarrow> app_pipelineData (snd (handleMessage (Decoded (JObj kvs)) a)) = app_pipelineData a)"
proof (intro impI, elim conjE)
  assume kv: "map_of kvs k = Some v" and falsy: "\<not> truthy v"
  let ?w = "JObj (without k kvs)"
  have absent: "\<not> has_field ?w k"
    by (auto simp: without_def)
  have try_eq: "onmessage_try (Decoded (JObj kvs)) s = onmessage_try (Decoded ?w) s"
    by (simp add: onmessage_try_def guarded_set_without[OF kv falsy])
  have pm: "onmessage_handler (Decoded (JObj kvs)) s = onmessage_handler (Decoded ?w) s"
    by (simp add: onmessage_handler_def try_eq)
  have "v \<noteq> JStr ''connected''" using falsy by auto
  then have app: "handleMessage (Decoded (JObj kvs)) a = handleMessage (Decoded ?w) a"
    using kv by (simp add: handleMessage_def guarded_set_without[OF kv falsy] map_of_without)
  show "onmessage_handler (Decoded (JObj kvs)) s = onmessage_handler (Decoded ?w) s
     \<and> handleMessage (Decoded (JObj kvs)) a = handleMessage (Decoded ?w) a
     \<and> (k = ''status'' \<longrightarrow> status (onmessage_handler (Decoded (JObj kvs)) s) = status s)
     \<and> (k = ''components'' \<longrightarrow> components (onmessage_handler (Decoded (JObj kvs)) s) = components s)
     \<and> (k = ''pipeline_data'' \<longrightarrow> pipelineData (onmessage_handler (Decoded (JObj kvs)) s) = pipelineData s)
     \<and> (k = ''status'' \<longrightarrow> app_status (snd (handleMessage (Decoded (JObj kvs)) a)) = app_status a)
     \<and> (k = ''pipelineId'' \<longrightarrow> app_pipelineId (snd (handleMessage (Decoded (JObj kvs)) a)) = app_pipelineId a)
     \<and> (k = ''components'' \<longrightarrow> app_components (snd (handleMessage (Decoded (JObj kvs)) a)) = app_components a)
     \<and> (k = ''pipelineData'' \<longrightarrow> app_pipelineData (snd (handleMessage (Decoded (JObj kvs)) a)) = app_pipelineData a)"
    unfolding pm app using absent
    by (auto simp: onmessage_handler_absent handleMessage_status handleMessage_pipelineId
      handleMessage_components handleMessage_pipelineData)
qed

text \<open>
  The frames \<^verbatim>\<open>{"status": "", "components": null}\<close> and
  \<^verbatim>\<open>{"pipeline_data": null}\<close>.
\<close>

theorem falsy_field_witness:
  "map_of [(''status'', JStr ''''), (''components'', JNull)] ''status'' = Some (JStr '''')
   \<and> \<not> truthy (JStr '''')
   \<and> map_of [(''pipeline_data'', JNull)] ''pipeline_data'' = Some JNull \<and> \<not> truthy JNull
   \<and> status (onmessage_handler (Decoded (JObj [(''status'', JStr ''''), (''components'', JNull)])) (mount p0)) = JStr ''initialized''
   \<and> pipelineData (onmessage_handler (Decoded (JObj [(''pipeline_data'', JNull)])) (mount p0)) = JObj []
   \<and> app_status (snd (handleMessage (Decoded (JObj [(''status'', JStr ''''), (''components'', JNull)])) app0)) = JStr ''initialized''"
proof -
  let ?f1 = "[(''status'', JStr []), (''components'', JNull)]"
  let ?f2 = "[(''pipeline_data'', JNull)]"
  have h1: "map_of ?f1 ''status'' = Some (JStr []) \<and> \<not> truthy (JStr [])" by simp
  have h2: "map_of ?f2 ''pipeline_data'' = Some JNull \<and> \<not> truthy JNull" by simp
  have "status (onmessage_handler (Decoded (JObj ?f1)) (mount p0)) = status (mount p0)"
    and "app_status (snd (handleMessage (Decoded (JObj ?f1)) app0)) = app_status app0"
    using falsy_field_is_absent_field[of ?f1 "''status''" "JStr []" "mount p0" app0] h1 by blast+
  moreover have "pipelineData (onmessage_handler (Decoded (JObj ?f2)) (mount p0)) = pipelineData (mount p0)"
    using falsy_field_is_absent_field[of ?f2 "''pipeline_data''" JNull "mount p0" app0] h2 by blast
  ultimately show ?thesis using h1 h2
    by (simp add: mount_snapshot p0_def app0_def)
qed

text \<open>
  Claim C5. On a frame that does not decode, \<^verbatim>\<open>ws.onmessage\<close> of the monitor
  catches the exception, logs it and changes nothing else (lemma
  \<open>onmessage_handler_malformed\<close>). \<^verbatim>\<open>handleMessage\<close> of the application has no
  try block: on the same frame, and on the frame \<^verbatim>\<open>null\<close>, the exception leaves
  the handler. Its state is left as it was.
\<close>

theorem handleMessage_malformed_escapes:
  "handleMessage Malformed a = (Some SyntaxError, a)
   \<and> handleMessage (Decoded JNull) a = (Some TypeError, a)"
  by (simp add: handleMessage_def)

lemma onmessage_handler_ack:
  "isComponentMounted s \<Longrightarrow>
     status (onmessage_handler (Decoded (JObj [(''status'', JStr ''connected'')])) s) = JStr ''connected''"
  by (simp add: onmessage_handler_def onmessage_try_def guarded_set.simps)

lemma handleMessage_ack:
  "handleMessage (Decoded (JObj [(''status'', JStr ''connected'')])) a =
     (None, a\<lparr>app_console := app_console a @ [ConsoleLog ''connected'']\<rparr>)"
  by (simp add: handleMessage_def)

text \<open>
  Claim C6. \<^verbatim>\<open>handleMessage\<close> of the application treats the frame
  \<^verbatim>\<open>{"status": "connected"}\<close> as an acknowledgment and only logs it (lemma
  \<open>handleMessage_ack\<close>). \<^verbatim>\<open>ws.onmessage\<close> of the monitor has no such case: after
  mount and open, the frame replaces the status \<^verbatim>\<open>initialized\<close> by
  \<^verbatim>\<open>connected\<close>.
\<close>

theorem handshake_ack_overwrites_status:
  "status (fire (EvOpen 0) (mount p0)) = JStr ''initialized''
   \<and> status (fire (EvMessage 0 (Decoded (JObj [(''status'', JStr ''connected'')])))
               (fire (EvOpen 0) (mount p0))) = JStr ''connected''"
  by (simp add: mount_def effect_body_def init_state_def resetState_def connectWebSocket_def
      cleanupWebSocket_def setTimeout_def p0_def Let_def set_readyState_def onopen_handler_def
      clearTimeout_def ws_send_def onmessage_handler_def onmessage_try_def guarded_set.simps)

section \<open>Properties of the derived views\<close>

lemma split_no_sep: "c \<notin> set xs \<Longrightarrow> split c xs = [xs]"
  by (induction xs) auto

lemma split_prefix: "c \<notin> set a \<Longrightarrow> split c (a @ c # b) = a # split c b"
  by (induction a) auto

lemma split_two: "c \<notin> set a \<Longrightarrow> c \<notin> set b \<Longrightarrow> split c (a @ c # b) = [a, b]"
  by (simp add: split_prefix split_no_sep)

lemma split_length: "length (split c xs) = Suc (count_list xs c)"
  by (induction xs) (auto split: list.splits)

lemma startsWith_decomp: "startsWith key p \<Longrightarrow> key = p @ drop (length p) key"
  by (metis append_take_drop_id startsWith_def)

lemma seg1_is_stripped:
  assumes "CHR ''.'' \<notin> set name" "startsWith key (name @ ''.'')"
    "CHR ''.'' \<notin> set (drop (Suc (length name)) key)"
  shows "index (split CHR ''.'' key) (Suc 0) = Some (drop (Suc (length name)) key)"
proof -
  let ?rest = "drop (Suc (length name)) key"
  have "key = name @ CHR ''.'' # ?rest"
    using startsWith_decomp[OF assms(2)] by simp
  then have "split CHR ''.'' key = [name, ?rest]"
    using split_two[OF assms(1) assms(3)] by simp
  then show ?thesis by (simp add: index_def)
qed

lemma count_list_pos: "c \<in> set xs \<Longrightarrow> 0 < count_list xs c"
  by (induction xs) auto

lemma seg1_defined:
  assumes "startsWith key (name @ ''.'')"
  shows "\<exists>seg. index (split CHR ''.'' key) (Suc 0) = Some seg"
proof -
  have "key = (name @ ''.'') @ drop (length (name @ ''.'')) key"
    using startsWith_decomp[OF assms] .
  then have "CHR ''.'' \<in> set key"
    by (metis append_Cons in_set_conv_decomp append.assoc)
  then have "count_list key CHR ''.'' > 0"
    by (rule count_list_pos)
  then show ?thesis by (simp add: index_def split_length)
qed

text \<open>
  Claim C9, amended. The key that \<open>getComponentData\<close> returns is the second segment
  of the composite key, \<^verbatim>\<open>key.split('.')[1]\<close>. When the component name contains no
  dot and no matching key has a dot after the prefix, that segment is the key with the
  prefix stripped, and \<open>getComponentData\<close> returns exactly the pairs of the
  specification's contract, in the order of the map.
\<close>

theorem getComponentData_strips_prefix:
  assumes "CHR ''.'' \<notin> set name"
    and "\<forall>(key, value) \<in> set es. startsWith key (name @ ''.'') \<longrightarrow>
           CHR ''.'' \<notin> set (drop (length name + 1) key)"
  shows "getComponentData (JObj es) name = Inr (keyed (componentFields_spec es name))"
  using assms(2)
  by (induction es) (auto simp: getComponentData_def componentFields_spec_def keyed_def seg1_is_stripped[OF assms(1)])

text \<open>
  The example of the specification: \<^verbatim>\<open>componentFields("parser")\<close> over
  \<^verbatim>\<open>{"parser.rows": "10", "joiner.rows": "5"}\<close>.
\<close>

theorem getComponentData_parser_witness:
  "CHR ''.'' \<notin> set ''parser''
   \<and> startsWith ''parser.rows'' (''parser'' @ ''.'')
   \<and> CHR ''.'' \<notin> set (drop (length ''parser'' + 1) ''parser.rows'')
   \<and> \<not> startsWith ''joiner.rows'' (''parser'' @ ''.'')
   \<and> getComponentData (JObj [(''parser.rows'', JStr ''10''), (''joiner.rows'', JStr ''5'')]) ''parser''
       = Inr [(Some ''rows'', JStr ''10'')]"
proof -
  have h1: "CHR ''.'' \<notin> set ''parser''" by simp
  have h2: "\<forall>(key, value) \<in> set [(''parser.rows'', JStr ''10''), (''joiner.rows'', JStr ''5'')].
        startsWith key (''parser'' @ ''.'') \<longrightarrow> CHR ''.'' \<notin> set (drop (length ''parser'' + 1) key)"
    by (simp add: startsWith_def)
  show ?thesis
    using getComponentData_strips_prefix[OF h1 h2] h1 h2
    by (simp add: keyed_def componentFields_spec_def startsWith_def)
qed

text \<open>
  Claim C9 as stated fails on a key with a second dot: for the entry
  \<^verbatim>\<open>"parser.rows.total"\<close> the returned key is \<^verbatim>\<open>rows\<close>, not
  \<^verbatim>\<open>rows.total\<close>.
\<close>

theorem getComponentData_second_segment_counterexample:
  "getComponentData (JObj [(''parser.rows.total'', JStr ''10'')]) ''parser''
     = Inr [(Some ''rows'', JStr ''10'')]
   \<and> keyed (componentFields_spec [(''parser.rows.total'', JStr ''10'')] ''parser'')
     = [(Some ''rows.total'', JStr ''10'')]
   \<and> getComponentData (JObj [(''parser.rows.total'', JStr ''10'')]) ''parser''
     \<noteq> Inr (keyed (componentFields_spec [(''parser.rows.total'', JStr ''10'')] ''parser''))"
  by (simp add: getComponentData_def componentFields_spec_def keyed_def startsWith_def index_def)

lemma timelineItems_state:
  "timelineItems s = Some (v, s') \<Longrightarrow>
     \<exists>cs. components s = JArr cs \<and> s' = s\<lparr>components := JArr (sort_key order_of cs)\<rparr>"
  by (auto simp: timelineItems_def Let_def split: json.splits if_splits)

text \<open>
  Claim C8. Computing the ordered view calls \<^verbatim>\<open>sort\<close> on the array held in the state
  variable \<^verbatim>\<open>components\<close>, which reorders that array: with the stored list
  \<open>[B, A]\<close> (orders 2 and 1) the view is \<open>[A, B]\<close> and the stored list is
  \<open>[A, B]\<close> afterwards. Every other field is left alone (lemma
  \<open>timelineItems_state\<close>).
\<close>

theorem timelineItems_reorders_stored_list:
  "components ((mount p0)\<lparr>components := JArr [compB, compA]\<rparr>) = JArr [compB, compA]
   \<and> map_option (\<lambda>r. (map item_name (fst r), components (snd r)))
        (timelineItems ((mount p0)\<lparr>components := JArr [compB, compA]\<rparr>))
       = Some ([''A'', ''B''], JArr [compA, compB])
   \<and> JArr [compA, compB] \<noteq> JArr [compB, compA]"
  by (simp add: timelineItems_def compA_def compB_def order_of_def name_of_def
      is_number_or_absent_def Let_def mount_snapshot)

section \<open>Properties of the connection life cycle\<close>

lemma unchanged_by_refl: "unchanged_by s s"
  by (simp add: unchanged_by_def)

lemma unchanged_by_trans: "unchanged_by s s1 \<Longrightarrow> unchanged_by s1 s2 \<Longrightarrow> unchanged_by s s2"
  by (auto simp: unchanged_by_def)

lemma clearTimeout_unchanged: "unchanged_by s (clearTimeout t s)"
  by (auto simp: unchanged_by_def clearTimeout_def snapshot_def)

lemma set_readyState_unchanged: "unchanged_by s (set_readyState w r s)"
  by (auto simp: unchanged_by_def set_readyState_def snapshot_def)

lemma cleanupWebSocket_unchanged: "unchanged_by s (cleanupWebSocket s)"
  by (auto simp: unchanged_by_def cleanupWebSocket_def clearTimeout_def snapshot_def Let_def
      split: option.splits)

lemma invoke_unmounted:
  assumes "\<not> isComponentMounted s"
  shows "unchanged_by s (invoke c s)"
proof (cases c)
  case (CbWatchdog w pid)
  then show ?thesis
    using assms cleanupWebSocket_unchanged[of s]
    by (auto simp: watchdog_callback_def Let_def unchanged_by_def)
next
  case (CbReconnect pid)
  then show ?thesis
    using assms cleanupWebSocket_unchanged[of s]
    by (auto simp: connectWebSocket_def Let_def unchanged_by_def)
qed (use assms in \<open>simp_all add: unchanged_by_refl onopen_handler_def onmessage_handler_def
       onerror_handler_def onclose_handler_def\<close>)

lemma fire_unmounted:
  assumes "\<not> isComponentMounted s"
  shows "unchanged_by s (fire e s)"
proof (cases e)
  case (EvOpen w)
  have "\<not> isComponentMounted (set_readyState w OPEN s)"
    using assms by (simp add: set_readyState_def)
  then show ?thesis
    using EvOpen set_readyState_unchanged[of s w OPEN]
    by (auto simp: Let_def unchanged_by_refl onopen_handler_def split: option.splits)
next
  case (EvMessage w p)
  then show ?thesis using assms
    by (auto simp: unchanged_by_refl onmessage_handler_def split: option.splits)
next
  case (EvError w)
  then show ?thesis using assms
    by (auto simp: unchanged_by_refl onerror_handler_def split: option.splits)
next
  case (EvClose w)
  have "\<not> isComponentMounted (set_readyState w CLOSED s)"
    using assms by (simp add: set_readyState_def)
  then show ?thesis
    using EvClose set_readyState_unchanged[of s w CLOSED]
    by (auto simp: Let_def unchanged_by_refl onclose_handler_def split: option.splits)
next
  case (EvTimer t)
  let ?s1 = "clearTimeout t s"
  have m: "\<not> isComponentMounted ?s1" using assms by (simp add: clearTimeout_def)
  have "unchanged_by ?s1 (invoke (CbWatchdog w pid) ?s1)" for w pid
    by (rule invoke_unmounted[OF m])
  moreover have "unchanged_by ?s1 (invoke (CbReconnect pid) ?s1)" for pid
    by (rule invoke_unmounted[OF m])
  ultimately show ?thesis
    using EvTimer clearTimeout_unchanged[of s t]
    by (auto simp: Let_def unchanged_by_refl split: option.splits timer_cb.splits
        intro: unchanged_by_trans)
qed

lemma happen_unmounted: "\<not> isComponentMounted s \<Longrightarrow> unchanged_by s (happen h s)"
  by (cases h) (simp_all add: invoke_unmounted fire_unmounted)

lemma run_unmounted: "\<not> isComponentMounted s \<Longrightarrow> unchanged_by s (run hs s)"
proof (induction hs arbitrary: s)
  case Nil
  then show ?case by (simp add: unchanged_by_refl)
next
  case (Cons h hs)
  have step: "unchanged_by s (happen h s)" by (rule happen_unmounted[OF Cons.prems])
  then have "\<not> isComponentMounted (happen h s)"
    using Cons.prems by (simp add: unchanged_by_def)
  then have "unchanged_by (happen h s) (run hs (happen h s))" by (rule Cons.IH)
  with step show ?case by (auto intro: unchanged_by_trans)
qed

text \<open>
  Claim C1. After the cleanup of the effect, whatever socket events and timers fire and
  whatever callbacks of any socket or timer are still called, in any order: the four
  fields of the snapshot keep their values, no socket and no timer is created, and the
  component stays unmounted.
\<close>

theorem no_mutation_after_shutdown:
  "snapshot (run hs (effect_cleanup s)) = snapshot s
   \<and> next_socket (run hs (effect_cleanup s)) = next_socket s
   \<and> next_timer (run hs (effect_cleanup s)) = next_timer s
   \<and> set (timers (run hs (effect_cleanup s))) \<subseteq> set (timers s)
   \<and> \<not> isComponentMounted (run hs (effect_cleanup s))"
proof -
  let ?u = "s\<lparr>isComponentMounted := False\<rparr>"
  have c: "unchanged_by ?u (effect_cleanup s)"
    unfolding effect_cleanup_def by (rule cleanupWebSocket_unchanged)
  then have "\<not> isComponentMounted (effect_cleanup s)" by (simp add: unchanged_by_def)
  then have "unchanged_by (effect_cleanup s) (run hs (effect_cleanup s))" by (rule run_unmounted)
  with c have "unchanged_by ?u (run hs (effect_cleanup s))" by (rule unchanged_by_trans)
  then show ?thesis by (simp add: unchanged_by_def snapshot_def)
qed


lemma cleanup_snapshot:
  "status (cleanupWebSocket s) = status s" "components (cleanupWebSocket s) = components s"
  "pipelineData (cleanupWebSocket s) = pipelineData s" "wsConnected (cleanupWebSocket s) = wsConnected s"
  "isComponentMounted (cleanupWebSocket s) = isComponentMounted s"
  "next_socket (cleanupWebSocket s) = next_socket s" "next_timer (cleanupWebSocket s) = next_timer s"
  using cleanupWebSocket_unchanged[of s] by (simp_all add: unchanged_by_def snapshot_def)

lemma cleanup_refs:
  "wsRef (cleanupWebSocket s) = None" "reconnectTimeoutRef (cleanupWebSocket s) = None"
  "connectionTimeoutRef (cleanupWebSocket s) = None" "effects (cleanupWebSocket s) = effects s"
  by (simp_all add: cleanupWebSocket_def clearTimeout_def Let_def split: option.splits)

lemma cleanup_timers:
  "timers (cleanupWebSocket s) =
     filter (\<lambda>x. Some (fst x) \<noteq> reconnectTimeoutRef s \<and> Some (fst x) \<noteq> connectionTimeoutRef s) (timers s)"
  by (auto simp: cleanupWebSocket_def clearTimeout_def Let_def split: option.splits intro: filter_cong)

lemma cleanup_sockets:
  "sockets (cleanupWebSocket s) =
     (case wsRef s of Some w \<Rightarrow> (sockets s)(w := detach_and_close (sockets s w)) | None \<Rightarrow> sockets s)"
  by (simp add: cleanupWebSocket_def clearTimeout_def Let_def split: option.splits)

lemma connect_unmounted:
  "\<not> isComponentMounted s \<Longrightarrow> connectWebSocket pid s = cleanupWebSocket s"
  by (simp add: connectWebSocket_def Let_def cleanup_snapshot)

lemma connect_mounted:
  assumes "isComponentMounted s"
  shows "connectWebSocket pid s =
     (cleanupWebSocket s)\<lparr>
        sockets := (sockets (cleanupWebSocket s))(next_socket s :=
           \<lparr>readyState = CONNECTING, onopen = Some pid, onmessage = Some pid,
            onerror = Some pid, onclose = Some pid\<rparr>),
        next_socket := Suc (next_socket s), wsRef := Some (next_socket s),
        timers := timers (cleanupWebSocket s) @ [(next_timer s, Watchdog (next_socket s) pid, 5000)],
        next_timer := Suc (next_timer s), connectionTimeoutRef := Some (next_timer s)\<rparr>"
  using assms by (simp add: connectWebSocket_def Let_def cleanup_snapshot setTimeout_def)

text \<open>
  Claim C3. When \<^verbatim>\<open>pipeline_id\<close> changes, the snapshot has its initial values (the
  status and components of the props, the empty data map, not connected) in the state
  in which the socket of the new subscription has just been created: that socket is
  new, still connecting, and nothing has been sent or logged for it.
\<close>

theorem change_pipeline_id_resets_first:
  "status (change_pipeline_id p s) = initialStatus p
   \<and> components (change_pipeline_id p s) = initialComponents p
   \<and> pipelineData (change_pipeline_id p s) = JObj []
   \<and> wsConnected (change_pipeline_id p s) = False
   \<and> wsRef (change_pipeline_id p s) = Some (next_socket s)
   \<and> next_socket (change_pipeline_id p s) = Suc (next_socket s)
   \<and> readyState (sockets (change_pipeline_id p s) (next_socket s)) = CONNECTING
   \<and> effects (change_pipeline_id p s) = effects s"
proof -
  let ?r = "resetState p ((effect_cleanup s)\<lparr>isComponentMounted := True\<rparr>)"
  have m: "isComponentMounted ?r" by (simp add: resetState_def)
  have n: "next_socket ?r = next_socket s" "effects ?r = effects s"
    by (simp_all add: resetState_def effect_cleanup_def cleanup_snapshot cleanup_refs)
  have r: "status ?r = initialStatus p" "components ?r = initialComponents p"
    "pipelineData ?r = JObj []" "wsConnected ?r = False"
    by (simp_all add: resetState_def)
  have "change_pipeline_id p s = connectWebSocket (pipeline_id p) ?r"
    by (simp add: change_pipeline_id_def effect_body_def)
  then show ?thesis
    by (simp add: connect_mounted[OF m] cleanup_snapshot cleanup_refs n r)
qed

text \<open>
  Claim C2. After mount the watchdog is pending and the socket is connecting. When the
  watchdog fires first, the status becomes \<^verbatim>\<open>error\<close>, but no timer is pending
  afterwards and the close handler of the socket has been removed: no reconnect is
  scheduled, and none can be.
\<close>

theorem watchdog_schedules_no_reconnect:
  "timers (mount p0) = [(1, Watchdog 0 ''0'', 5000)]
   \<and> readyState (sockets (mount p0) 0) = CONNECTING
   \<and> status (fire (EvTimer 1) (mount p0)) = JStr ''error''
   \<and> timers (fire (EvTimer 1) (mount p0)) = []
   \<and> reconnectTimeoutRef (fire (EvTimer 1) (mount p0)) = None
   \<and> wsRef (fire (EvTimer 1) (mount p0)) = None
   \<and> onclose (sockets (fire (EvTimer 1) (mount p0)) 0) = None"
  by (simp add: mount_def effect_body_def init_state_def resetState_def connectWebSocket_def
      cleanupWebSocket_def setTimeout_def p0_def Let_def clearTimeout_def watchdog_callback_def
      detach_and_close_def)

section \<open>The invariant of the reachable states\<close>

lemma timer_ok_cong:
  assumes "reconnectTimeoutRef s' = reconnectTimeoutRef s" "connectionTimeoutRef s' = connectionTimeoutRef s"
    "wsRef s' = wsRef s" "sockets s' = sockets s"
  shows "timer_ok s' x = timer_ok s x"
proof (cases x)
  case (fields t cb ms)
  then show ?thesis using assms by (cases cb) (auto split: option.splits)
qed

lemma wired_cong:
  assumes "reconnectTimeoutRef s' = reconnectTimeoutRef s" "connectionTimeoutRef s' = connectionTimeoutRef s"
    "wsRef s' = wsRef s" "sockets s' = sockets s" "set (timers s') \<subseteq> set (timers s)"
  shows "wired s \<Longrightarrow> wired s'"
  using assms timer_ok_cong[OF assms(1-4)]
  by (auto simp: wired_def list_all_iff)

lemma pm_inv_cong:
  assumes "reconnectTimeoutRef s' = reconnectTimeoutRef s" "connectionTimeoutRef s' = connectionTimeoutRef s"
    "wsRef s' = wsRef s" "sockets s' = sockets s" "set (timers s') \<subseteq> set (timers s)"
    "isComponentMounted s' = isComponentMounted s"
  shows "pm_inv s \<Longrightarrow> pm_inv s'"
  using wired_cong[OF assms(1-5)] assms(3,5,6)
  by (auto simp: pm_inv_def)

lemma detached_detach_and_close: "detached (detach_and_close w)"
  by (simp add: detached_def detach_and_close_def Let_def)

lemma wired_cleanup_timers:
  assumes "wired s"
  shows "timers (cleanupWebSocket s) = []"
proof -
  have "\<not> (Some (fst x) \<noteq> reconnectTimeoutRef s \<and> Some (fst x) \<noteq> connectionTimeoutRef s)"
    if "x \<in> set (timers s)" for x
  proof (cases x)
    case (fields t cb ms)
    have "timer_ok s x" using assms that by (simp add: wired_def list_all_iff)
    then show ?thesis using fields by (cases cb) auto
  qed
  then show ?thesis by (simp add: cleanup_timers filter_empty_conv)
qed

lemma wired_cleanup_detached:
  assumes "wired s"
  shows "detached (sockets (cleanupWebSocket s) w)"
  using assms
  by (auto simp: wired_def cleanup_sockets detached_detach_and_close split: option.splits)

lemma wired_cleanup: "wired s \<Longrightarrow> pm_inv (cleanupWebSocket s)"
  by (simp add: pm_inv_def wired_def wired_cleanup_timers wired_cleanup_detached cleanup_refs)

lemma wired_connect:
  assumes "wired s"
  shows "pm_inv (connectWebSocket pid s)"
proof (cases "isComponentMounted s")
  case False
  then show ?thesis using wired_cleanup[OF assms] by (simp add: connect_unmounted)
next
  case True
  show ?thesis
    using wired_cleanup_detached[OF assms]
    by (simp add: connect_mounted[OF True] pm_inv_def wired_def wired_cleanup_timers[OF assms]
        detached_def cleanup_snapshot True)
qed

lemma pm_inv_wired: "pm_inv s \<Longrightarrow> wired s"
  by (simp add: pm_inv_def)

lemma wired_mounted_flag: "wired (s\<lparr>isComponentMounted := b\<rparr>) = wired s"
  using timer_ok_cong[of "s\<lparr>isComponentMounted := b\<rparr>" s]
  by (simp add: wired_def list_all_iff)

lemma wired_resetState: "wired (resetState p s) = wired s"
  using timer_ok_cong[of "resetState p s" s]
  by (simp add: wired_def list_all_iff resetState_def)

lemma pm_inv_effect_cleanup: "pm_inv s \<Longrightarrow> pm_inv (effect_cleanup s)"
  unfolding effect_cleanup_def
  by (rule wired_cleanup) (simp add: wired_mounted_flag pm_inv_wired)

lemma wired_effect_body: "wired s \<Longrightarrow> pm_inv (effect_body p s)"
  unfolding effect_body_def
  by (rule wired_connect) (simp add: wired_resetState wired_mounted_flag)

lemma pm_inv_mount: "pm_inv (mount p)"
  unfolding mount_def
  by (rule wired_effect_body) (simp add: wired_def init_state_def detached_def)

lemma pm_inv_change: "pm_inv s \<Longrightarrow> pm_inv (change_pipeline_id p s)"
  unfolding change_pipeline_id_def
  by (rule wired_effect_body) (simp add: pm_inv_wired pm_inv_effect_cleanup)

lemma pm_inv_clearTimeout: "pm_inv s \<Longrightarrow> pm_inv (clearTimeout t s)"
  by (rule pm_inv_cong[of _ s]) (auto simp: clearTimeout_def)

lemma pm_inv_onmessage: "pm_inv s \<Longrightarrow> pm_inv (onmessage_handler p s)"
  by (rule pm_inv_cong[of _ s])
     (simp_all add: onmessage_handler_eq onmessage_try_other[where get=reconnectTimeoutRef]
        onmessage_try_other[where get=connectionTimeoutRef] onmessage_try_other[where get=wsRef]
        onmessage_try_other[where get=sockets] onmessage_try_other[where get=timers]
        onmessage_try_other[where get=isComponentMounted])

lemma pm_inv_onerror: "pm_inv s \<Longrightarrow> pm_inv (onerror_handler pid s)"
  by (rule pm_inv_cong[of _ s]) (simp_all add: onerror_handler_def)

lemma pm_inv_render: "pm_inv s \<Longrightarrow> timelineItems s = Some (v, s') \<Longrightarrow> pm_inv s'"
  using timelineItems_state[of s v s']
  by (auto intro: pm_inv_cong[of _ s])


lemma detached_readyState: "detached (w\<lparr>readyState := r\<rparr>) = detached w"
  by (simp add: detached_def)

lemma timer_ok_reconnect:
  "timer_ok s x \<Longrightarrow> is_reconnect x \<Longrightarrow>
     reconnectTimeoutRef s = Some (fst x) \<and> (\<exists>w. wsRef s = Some w \<and> readyState (sockets s w) = CLOSED)"
  by (cases x; cases "fst (snd x)") (auto split: option.splits)

lemma timer_ok_watchdog:
  "\<not> is_reconnect x \<Longrightarrow> timer_ok s x = (connectionTimeoutRef s = Some (fst x))"
  by (cases x; cases "fst (snd x)") auto

lemma no_reconnect_pending:
  assumes "wired s" "wsRef s = Some w" "readyState (sockets s w) \<noteq> CLOSED"
  shows "reconnect_timers s = []"
proof -
  have "\<not> is_reconnect x" if "x \<in> set (timers s)" for x
  proof
    assume "is_reconnect x"
    moreover have "timer_ok s x" using assms(1) that by (simp add: wired_def list_all_iff)
    ultimately show False using timer_ok_reconnect[of s x] assms(2,3) by auto
  qed
  then show ?thesis by (simp add: reconnect_timers_def filter_empty_conv)
qed

lemma wired_set_readyState:
  assumes "wired s" "r = CLOSED \<or> readyState (sockets s w) \<noteq> CLOSED"
  shows "wired (set_readyState w r s)"
proof -
  let ?s' = "set_readyState w r s"
  have d: "\<forall>v. wsRef ?s' \<noteq> Some v \<longrightarrow> detached (sockets ?s' v)"
    using assms(1) by (simp add: wired_def set_readyState_def detached_readyState)
  have "timer_ok ?s' x" if "x \<in> set (timers s)" for x
  proof (cases "is_reconnect x")
    case True
    have ok: "timer_ok s x" using assms(1) that by (simp add: wired_def list_all_iff)
    from timer_ok_reconnect[OF ok True] obtain v where
      v: "reconnectTimeoutRef s = Some (fst x)" "wsRef s = Some v" "readyState (sockets s v) = CLOSED"
      by auto
    have "readyState (sockets ?s' v) = CLOSED"
      using v(3) assms(2) by (auto simp: set_readyState_def)
    then show ?thesis using True v
      by (cases x; cases "fst (snd x)") (auto simp: set_readyState_def)
  next
    case False
    have ok: "timer_ok s x" using assms(1) that by (simp add: wired_def list_all_iff)
    then show ?thesis using False
      by (simp add: timer_ok_watchdog set_readyState_def)
  qed
  then have "list_all (timer_ok ?s') (timers ?s')"
    by (simp add: list_all_iff set_readyState_def)
  with d show ?thesis by (simp add: wired_def)
qed

lemma pm_inv_set_readyState:
  assumes "pm_inv s" "r = CLOSED \<or> readyState (sockets s w) \<noteq> CLOSED"
  shows "pm_inv (set_readyState w r s)"
  using wired_set_readyState[OF pm_inv_wired[OF assms(1)] assms(2)] assms(1)
  by (simp add: pm_inv_def set_readyState_def)

lemma pm_inv_onopen: "pm_inv s \<Longrightarrow> pm_inv (onopen_handler w pid s)"
  by (rule pm_inv_cong[of _ s])
     (auto simp: onopen_handler_def ws_send_def clearTimeout_def Let_def
        split: option.splits ready_state.splits)

lemma pm_inv_watchdog: "pm_inv s \<Longrightarrow> pm_inv (watchdog_callback w pid s)"
proof -
  assume i: "pm_inv s"
  let ?c = "cleanupWebSocket s"
  have c: "pm_inv ?c" by (rule wired_cleanup[OF pm_inv_wired[OF i]])
  have "pm_inv (?c\<lparr>status := JStr ''error'', effects := effects ?c @ [ToastError pid ''timeout'']\<rparr>)"
    by (rule pm_inv_cong[OF _ _ _ _ _ _ c]) simp_all
  with c i show ?thesis by (simp add: watchdog_callback_def Let_def)
qed

lemma onclose_mounted_current:
  assumes "isComponentMounted s" "wsRef s = Some w"
  shows "onclose_handler w pid s =
     s\<lparr>wsConnected := False, timers := timers s @ [(next_timer s, Reconnect pid, 3000)],
       next_timer := Suc (next_timer s), reconnectTimeoutRef := Some (next_timer s)\<rparr>"
  using assms by (simp add: onclose_handler_def setTimeout_def Let_def)

lemma onclose_other:
  assumes "\<not> isComponentMounted s \<or> wsRef s \<noteq> Some w"
  shows "onclose_handler w pid s = (if isComponentMounted s then s\<lparr>wsConnected := False\<rparr> else s)"
  using assms by (auto simp: onclose_handler_def Let_def)

lemma pm_inv_onclose:
  assumes "pm_inv s" "wsRef s = Some w \<longrightarrow> readyState (sockets s w) = CLOSED \<and> reconnect_timers s = []"
  shows "pm_inv (onclose_handler w pid s)"
proof (cases "isComponentMounted s \<and> wsRef s = Some w")
  case False
  then have "onclose_handler w pid s = (if isComponentMounted s then s\<lparr>wsConnected := False\<rparr> else s)"
    by (intro onclose_other) auto
  moreover have "pm_inv (s\<lparr>wsConnected := False\<rparr>)"
    by (rule pm_inv_cong[OF _ _ _ _ _ _ assms(1)]) simp_all
  ultimately show ?thesis using assms(1) by simp
next
  case True
  let ?s' = "onclose_handler w pid s"
  have eq: "?s' = s\<lparr>wsConnected := False, timers := timers s @ [(next_timer s, Reconnect pid, 3000)],
       next_timer := Suc (next_timer s), reconnectTimeoutRef := Some (next_timer s)\<rparr>"
    using True by (intro onclose_mounted_current) auto
  have closed: "readyState (sockets s w) = CLOSED" and none: "reconnect_timers s = []"
    using assms(2) True by auto
  have w: "wired s" by (rule pm_inv_wired[OF assms(1)])
  have "timer_ok ?s' x" if "x \<in> set (timers s)" for x
  proof -
    have nr: "\<not> is_reconnect x"
      using none that by (auto simp: reconnect_timers_def filter_empty_conv)
    have "timer_ok s x" using w that by (simp add: wired_def list_all_iff)
    then show ?thesis using nr by (simp add: timer_ok_watchdog eq)
  qed
  moreover have "timer_ok ?s' (next_timer s, Reconnect pid, 3000)"
    using True closed by (simp add: eq)
  ultimately have "list_all (timer_ok ?s') (timers ?s')"
    by (auto simp: list_all_iff eq)
  moreover have "\<forall>v. wsRef ?s' \<noteq> Some v \<longrightarrow> detached (sockets ?s' v)"
    using w by (simp add: wired_def eq)
  ultimately show ?thesis using True by (simp add: pm_inv_def wired_def eq)
qed

lemma pm_inv_fire:
  assumes "pm_inv s"
  shows "pm_inv (fire e s)"
proof (cases e)
  case (EvOpen w)
  show ?thesis
  proof (cases "w < next_socket s \<and> readyState (sockets s w) = CONNECTING")
    case True
    then have "pm_inv (set_readyState w OPEN s)"
      by (intro pm_inv_set_readyState[OF assms]) simp
    then show ?thesis using EvOpen True
      by (auto simp: Let_def pm_inv_onopen split: option.splits)
  next
    case False
    then show ?thesis using EvOpen assms by auto
  qed
next
  case (EvMessage w p)
  then show ?thesis using assms by (auto simp: pm_inv_onmessage split: option.splits)
next
  case (EvError w)
  then show ?thesis using assms by (auto simp: pm_inv_onerror split: option.splits)
next
  case (EvClose w)
  show ?thesis
  proof (cases "w < next_socket s \<and> readyState (sockets s w) \<noteq> CLOSED")
    case True
    let ?s1 = "set_readyState w CLOSED s"
    have i1: "pm_inv ?s1" by (intro pm_inv_set_readyState[OF assms]) simp
    have "reconnect_timers s = []" if "wsRef s = Some w"
      using no_reconnect_pending[OF pm_inv_wired[OF assms] that] True by simp
    then have "wsRef ?s1 = Some w \<longrightarrow> readyState (sockets ?s1 w) = CLOSED \<and> reconnect_timers ?s1 = []"
      by (simp add: set_readyState_def reconnect_timers_def)
    then have "pm_inv (onclose_handler w pid ?s1)" for pid
      by (rule pm_inv_onclose[OF i1])
    then show ?thesis using EvClose True i1
      by (auto simp: Let_def split: option.splits)
  next
    case False
    then show ?thesis using EvClose assms by auto
  qed
next
  case (EvTimer t)
  have "pm_inv (clearTimeout t s)" by (rule pm_inv_clearTimeout[OF assms])
  then show ?thesis using EvTimer assms
    by (auto simp: Let_def pm_inv_watchdog wired_connect pm_inv_wired
        split: option.splits timer_cb.splits)
qed

lemma reachable_pm_inv: "reachable s \<Longrightarrow> pm_inv s"
proof (induction rule: reachable.induct)
  case (reach_mount p)
  show ?case by (rule pm_inv_mount)
next
  case (reach_fire s e)
  then show ?case by (simp add: pm_inv_fire)
next
  case (reach_change s p)
  then show ?case by (simp add: pm_inv_change)
next
  case (reach_unmount s)
  then show ?case by (simp add: pm_inv_effect_cleanup)
next
  case (reach_render s v s')
  then show ?case by (simp add: pm_inv_render)
qed


declare fire.simps [simp del]

lemma attached_is_current:
  assumes "wired s" "onclose (sockets s w) = Some pid"
  shows "wsRef s = Some w"
proof (rule ccontr)
  assume "wsRef s \<noteq> Some w"
  then have "detached (sockets s w)" using assms(1) by (simp add: wired_def)
  then show False using assms(2) by (simp add: detached_def)
qed

lemma change_pipeline_id_wsRef: "wsRef (change_pipeline_id p s) = Some (next_socket s)"
proof -
  let ?r = "resetState p ((effect_cleanup s)\<lparr>isComponentMounted := True\<rparr>)"
  have m: "isComponentMounted ?r" by (simp add: resetState_def)
  have n: "next_socket ?r = next_socket s"
    by (simp add: resetState_def effect_cleanup_def cleanup_snapshot)
  have "change_pipeline_id p s = connectWebSocket (pipeline_id p) ?r"
    by (simp add: change_pipeline_id_def effect_body_def)
  then show ?thesis by (simp add: connect_mounted[OF m] n)
qed

text \<open>
  After a change of \<^verbatim>\<open>pipeline_id\<close> every socket but the new one has lost its
  handlers, so no event of an earlier subscription reaches the component.
\<close>

lemma change_pipeline_id_detaches_old:
  assumes "reachable s" "w \<noteq> next_socket s"
  shows "detached (sockets (change_pipeline_id p s) w)"
proof -
  have "wired (change_pipeline_id p s)"
    by (rule pm_inv_wired[OF pm_inv_change[OF reachable_pm_inv[OF assms(1)]]])
  moreover have "wsRef (change_pipeline_id p s) \<noteq> Some w"
    using assms(2) by (simp add: change_pipeline_id_wsRef)
  ultimately show ?thesis by (simp add: wired_def)
qed

text \<open>
  In every reachable state, a watchdog that fires on a socket that is not open leaves
  no timer pending and no current socket: whatever reconnect was scheduled is
  cancelled, and none is scheduled.
\<close>

lemma watchdog_timeout_leaves_nothing_pending:
  assumes "reachable s" "map_of (timers s) t = Some (Watchdog w pid, ms)"
    "readyState (sockets s w) \<noteq> OPEN"
  shows "timers (fire (EvTimer t) s) = []"
    and "wsRef (fire (EvTimer t) s) = None"
    and "isComponentMounted s \<Longrightarrow> status (fire (EvTimer t) s) = JStr ''error''"
proof -
  let ?s1 = "clearTimeout t s"
  have w1: "wired ?s1"
    by (rule pm_inv_wired[OF pm_inv_clearTimeout[OF reachable_pm_inv[OF assms(1)]]])
  have r: "readyState (sockets ?s1 w) \<noteq> OPEN" using assms(3) by (simp add: clearTimeout_def)
  have f: "fire (EvTimer t) s = watchdog_callback w pid ?s1"
    using assms(2) by (simp add: Let_def fire.simps)
  show "timers (fire (EvTimer t) s) = []"
    using r wired_cleanup_timers[OF w1] by (simp add: f watchdog_callback_def Let_def)
  show "wsRef (fire (EvTimer t) s) = None"
    using r by (simp add: f watchdog_callback_def Let_def cleanup_refs)
  show "status (fire (EvTimer t) s) = JStr ''error''" if "isComponentMounted s"
    using r that by (simp add: f watchdog_callback_def Let_def cleanup_snapshot clearTimeout_def)
qed

lemma unmount_p0_fields:
  "next_socket (effect_cleanup (mount p0)) = 1" "\<not> isComponentMounted (effect_cleanup (mount p0))"
  "readyState (sockets (effect_cleanup (mount p0)) 0) = CLOSING"
  "status (effect_cleanup (mount p0)) = JStr ''initialized''"
  by (simp_all add: effect_cleanup_def cleanup_snapshot cleanup_sockets mount_p0_fields
      detach_and_close_def Let_def)

lemma change_pipeline_id_eq:
  "change_pipeline_id p s =
     connectWebSocket (pipeline_id p) (resetState p ((effect_cleanup s)\<lparr>isComponentMounted := True\<rparr>))"
  by (simp add: change_pipeline_id_def effect_body_def)

lemma change_pipeline_id_status: "status (change_pipeline_id p s) = initialStatus p"
proof -
  let ?r = "resetState p ((effect_cleanup s)\<lparr>isComponentMounted := True\<rparr>)"
  have m: "isComponentMounted ?r" by (simp add: resetState_def)
  have "status ?r = initialStatus p" by (simp add: resetState_def)
  then show ?thesis by (simp add: change_pipeline_id_eq connect_mounted[OF m] cleanup_snapshot)
qed

lemma change_pipeline_id_timers:
  assumes "reachable s"
  shows "timers (change_pipeline_id p s) = [(next_timer s, Watchdog (next_socket s) (pipeline_id p), 5000)]"
proof -
  let ?r = "resetState p ((effect_cleanup s)\<lparr>isComponentMounted := True\<rparr>)"
  have m: "isComponentMounted ?r" by (simp add: resetState_def)
  have "wired (effect_cleanup s)"
    by (rule pm_inv_wired[OF pm_inv_effect_cleanup[OF reachable_pm_inv[OF assms]]])
  then have w: "wired ?r" by (simp add: wired_resetState wired_mounted_flag)
  have n: "next_socket ?r = next_socket s" "next_timer ?r = next_timer s"
    by (simp_all add: resetState_def effect_cleanup_def cleanup_snapshot)
  show ?thesis
    by (simp add: change_pipeline_id_eq connect_mounted[OF m] wired_cleanup_timers[OF w] n)
qed

lemma fire_close_detached:
  assumes "onclose (sockets s w) = None"
  shows "timers (fire (EvClose w) s) = timers s" "status (fire (EvClose w) s) = status s"
  using assms by (simp_all add: fire.simps Let_def set_readyState_def)

lemma watchdog_p0_fields:
  "isComponentMounted (fire (EvTimer 1) (mount p0))"
  "next_socket (fire (EvTimer 1) (mount p0)) = 1"
  "readyState (sockets (fire (EvTimer 1) (mount p0)) 0) = CLOSING"
  "onclose (sockets (fire (EvTimer 1) (mount p0)) 0) = None"
  "timers (fire (EvTimer 1) (mount p0)) = []"
  by (simp_all add: mount_def effect_body_def init_state_def resetState_def connectWebSocket_def
      cleanupWebSocket_def setTimeout_def p0_def Let_def clearTimeout_def watchdog_callback_def
      detach_and_close_def fire.simps)

text \<open>
  Claim C7, amended. In every reachable state, when a socket that is not yet closed
  closes: if the component is mounted and the event reaches \<^verbatim>\<open>ws.onclose\<close> (the
  handler is still in the slot of the socket, which is then the current socket), the
  handler schedules one timer, a reconnect with a delay of 3000 ms, which is then the
  only pending reconnect, and the status keeps its value; if the component is
  unmounted, no timer is pending afterwards and the status keeps its value; and when
  \<^verbatim>\<open>pipeline_id\<close> has changed, the close event of a socket of the earlier
  subscription, whose handlers the cleanup removed before closing it, schedules
  nothing: the watchdog of the new socket stays the only pending timer and the status
  stays the reset one.
\<close>

theorem close_schedules_one_reconnect:
  assumes "reachable s" "w < next_socket s" "readyState (sockets s w) \<noteq> CLOSED"
  shows "(isComponentMounted s \<and> onclose (sockets s w) = Some pid \<longrightarrow>
            timers (fire (EvClose w) s) = timers s @ [(next_timer s, Reconnect pid, 3000)]
            \<and> reconnect_timers (fire (EvClose w) s) = [(next_timer s, Reconnect pid, 3000)]
            \<and> status (fire (EvClose w) s) = status s)
       \<and> (\<not> isComponentMounted s \<longrightarrow>
            timers (fire (EvClose w) s) = [] \<and> status (fire (EvClose w) s) = status s)
       \<and> readyState (sockets (change_pipeline_id p s) w) \<noteq> CLOSED
       \<and> timers (fire (EvClose w) (change_pipeline_id p s)) = timers (change_pipeline_id p s)
       \<and> reconnect_timers (fire (EvClose w) (change_pipeline_id p s)) = []
       \<and> status (fire (EvClose w) (change_pipeline_id p s)) = initialStatus p"
proof -
  have i: "pm_inv s" by (rule reachable_pm_inv[OF assms(1)])
  let ?s1 = "set_readyState w CLOSED s"
  have current: "timers (fire (EvClose w) s) = timers s @ [(next_timer s, Reconnect pid, 3000)]
            \<and> reconnect_timers (fire (EvClose w) s) = [(next_timer s, Reconnect pid, 3000)]
            \<and> status (fire (EvClose w) s) = status s"
    if a: "isComponentMounted s \<and> onclose (sockets s w) = Some pid"
  proof -
    have cur: "wsRef s = Some w" by (rule attached_is_current[OF pm_inv_wired[OF i]]) (use a in simp)
    have none: "reconnect_timers s = []"
      by (rule no_reconnect_pending[OF pm_inv_wired[OF i] cur assms(3)])
    have "onclose (sockets ?s1 w) = Some pid" using a by (simp add: set_readyState_def)
    then have f: "fire (EvClose w) s = onclose_handler w pid ?s1"
      using assms(2,3) by (simp add: Let_def fire.simps)
    have h: "onclose_handler w pid ?s1 =
       ?s1\<lparr>wsConnected := False, timers := timers ?s1 @ [(next_timer ?s1, Reconnect pid, 3000)],
         next_timer := Suc (next_timer ?s1), reconnectTimeoutRef := Some (next_timer ?s1)\<rparr>"
      by (rule onclose_mounted_current) (use a cur in \<open>simp_all add: set_readyState_def\<close>)
    have t: "timers (fire (EvClose w) s) = timers s @ [(next_timer s, Reconnect pid, 3000)]"
      unfolding f h by (simp add: set_readyState_def)
    then have "reconnect_timers (fire (EvClose w) s) = [(next_timer s, Reconnect pid, 3000)]"
      using none by (simp add: reconnect_timers_def)
    moreover have "status (fire (EvClose w) s) = status s"
      unfolding f h by (simp add: set_readyState_def)
    ultimately show ?thesis using t by simp
  qed
  have unmounted: "timers (fire (EvClose w) s) = [] \<and> status (fire (EvClose w) s) = status s"
    if u: "\<not> isComponentMounted s"
  proof -
    have "timers s = []" using i u by (simp add: pm_inv_def)
    moreover have "unchanged_by s (fire (EvClose w) s)" by (rule fire_unmounted[OF u])
    ultimately show ?thesis by (simp add: unchanged_by_def snapshot_def)
  qed
  let ?c = "change_pipeline_id p s"
  let ?r = "resetState p ((effect_cleanup s)\<lparr>isComponentMounted := True\<rparr>)"
  have ne: "w \<noteq> next_socket s" using assms(2) by simp
  have "detached (sockets ?c w)" by (rule change_pipeline_id_detaches_old[OF assms(1) ne])
  then have oc: "onclose (sockets ?c w) = None" by (simp add: detached_def)
  have m: "isComponentMounted ?r" by (simp add: resetState_def)
  have n: "next_socket ?r = next_socket s"
    by (simp add: resetState_def effect_cleanup_def cleanup_snapshot)
  have s1: "sockets ?c w = sockets (cleanupWebSocket ?r) w"
    unfolding change_pipeline_id_eq connect_mounted[OF m] using ne n by simp
  have "wsRef ?r = None" by (simp add: resetState_def effect_cleanup_def cleanup_refs)
  then have "sockets (cleanupWebSocket ?r) = sockets (effect_cleanup s)"
    by (simp add: cleanup_sockets resetState_def)
  with s1 have s2: "sockets ?c w = sockets (effect_cleanup s) w" by simp
  have rs: "readyState (sockets ?c w) \<noteq> CLOSED"
    using assms(3)
    by (auto simp: s2 effect_cleanup_def cleanup_sockets detach_and_close_def Let_def
        split: option.splits)
  have t: "timers (fire (EvClose w) ?c) = timers ?c"
    and st: "status (fire (EvClose w) ?c) = status ?c"
    by (rule fire_close_detached[OF oc])+
  have rt: "reconnect_timers (fire (EvClose w) ?c) = []"
    by (simp add: reconnect_timers_def t change_pipeline_id_timers[OF assms(1)])
  show ?thesis
    using current unmounted rs t rt st by (simp add: change_pipeline_id_status)
qed

text \<open>
  The socket of a freshly mounted monitor closes; it closes after the unmount; and it
  closes after \<^verbatim>\<open>pipeline_id\<close> has changed.
\<close>

theorem close_schedules_one_reconnect_witness:
  "timers (fire (EvClose 0) (mount p0)) = [(1, Watchdog 0 ''0'', 5000), (2, Reconnect ''0'', 3000)]
   \<and> reconnect_timers (fire (EvClose 0) (mount p0)) = [(2, Reconnect ''0'', 3000)]
   \<and> status (fire (EvClose 0) (mount p0)) = JStr ''initialized''
   \<and> timers (fire (EvClose 0) (effect_cleanup (mount p0))) = []
   \<and> status (fire (EvClose 0) (effect_cleanup (mount p0))) = JStr ''initialized''
   \<and> timers (fire (EvClose 0) (change_pipeline_id p1 (mount p0))) = [(2, Watchdog 1 ''1'', 5000)]
   \<and> reconnect_timers (fire (EvClose 0) (change_pipeline_id p1 (mount p0))) = []
   \<and> status (fire (EvClose 0) (change_pipeline_id p1 (mount p0))) = JStr ''running''"
proof -
  have r1: "reachable (mount p0)" by (rule reach_mount)
  have r2: "reachable (effect_cleanup (mount p0))" by (rule reach_unmount[OF r1])
  have a1: "0 < next_socket (mount p0)" "readyState (sockets (mount p0) 0) \<noteq> CLOSED"
    by (simp_all add: mount_p0_fields)
  have a2: "0 < next_socket (effect_cleanup (mount p0))"
    "readyState (sockets (effect_cleanup (mount p0)) 0) \<noteq> CLOSED"
    by (simp_all add: unmount_p0_fields)
  have m: "isComponentMounted (mount p0) \<and> onclose (sockets (mount p0) 0) = Some ''0''"
    by (simp add: mount_p0_fields)
  have ip: "initialStatus p1 = JStr ''running''" by (simp add: p1_def)
  have c: "timers (change_pipeline_id p1 (mount p0)) = [(2, Watchdog 1 ''1'', 5000)]"
    by (simp add: change_pipeline_id_timers[OF r1] mount_p0_fields p1_def)
  from close_schedules_one_reconnect[OF r1 a1, of "''0''" p1] m
  have "timers (fire (EvClose 0) (mount p0)) = timers (mount p0) @ [(next_timer (mount p0), Reconnect ''0'', 3000)]"
    and "reconnect_timers (fire (EvClose 0) (mount p0)) = [(next_timer (mount p0), Reconnect ''0'', 3000)]"
    and "status (fire (EvClose 0) (mount p0)) = status (mount p0)"
    and "timers (fire (EvClose 0) (change_pipeline_id p1 (mount p0))) = timers (change_pipeline_id p1 (mount p0))"
    and "reconnect_timers (fire (EvClose 0) (change_pipeline_id p1 (mount p0))) = []"
    and "status (fire (EvClose 0) (change_pipeline_id p1 (mount p0))) = initialStatus p1"
    by blast+
  moreover from close_schedules_one_reconnect[OF r2 a2, of "''0''" p1] unmount_p0_fields(2)
  have "timers (fire (EvClose 0) (effect_cleanup (mount p0))) = []"
    and "status (fire (EvClose 0) (effect_cleanup (mount p0))) = status (effect_cleanup (mount p0))"
    by blast+
  ultimately show ?thesis
    by (simp add: mount_p0_fields unmount_p0_fields c ip)
qed

text \<open>
  Claim C7 as stated fails for the socket that the watchdog tore down: the monitor is
  mounted and the socket is closing, its close handler removed by
  \<^verbatim>\<open>cleanupWebSocket\<close>; when it closes, no timer is pending afterwards, so no
  reconnect is scheduled although no shutdown was requested.
\<close>

theorem close_after_watchdog_counterexample:
  "reachable (fire (EvTimer 1) (mount p0))
   \<and> isComponentMounted (fire (EvTimer 1) (mount p0))
   \<and> 0 < next_socket (fire (EvTimer 1) (mount p0))
   \<and> readyState (sockets (fire (EvTimer 1) (mount p0)) 0) = CLOSING
   \<and> timers (fire (EvClose 0) (fire (EvTimer 1) (mount p0))) = []
   \<and> reconnect_timers (fire (EvClose 0) (fire (EvTimer 1) (mount p0))) = []"
proof -
  have r: "reachable (fire (EvTimer 1) (mount p0))"
    by (rule reach_fire[OF reach_mount])
  have n: "0 < next_socket (fire (EvTimer 1) (mount p0))"
    unfolding watchdog_p0_fields(2) by simp
  have t: "timers (fire (EvClose 0) (fire (EvTimer 1) (mount p0))) = []"
    by (rule trans[OF fire_close_detached(1)[OF watchdog_p0_fields(4)] watchdog_p0_fields(5)])
  have rt: "reconnect_timers (fire (EvClose 0) (fire (EvTimer 1) (mount p0))) = []"
    unfolding reconnect_timers_def t by simp
  show ?thesis
    using r watchdog_p0_fields(1) n watchdog_p0_fields(3) t rt by blast
qed

end
